theory Spec2Isabelle
  imports Main
begin

section \<open>The layout component \<open>Container\<close> (frontend/src/components/layout/container.tsx)\<close>

subsection \<open>Render trees\<close>

text \<open>
  A JavaScript number, as far as its truthiness is concerned: \<open>NaN\<close> and the finite
  values, of which only zero is falsy. The integers stand for the finite doubles.
\<close>

datatype jsnumber = NaN | Finite int

text \<open>
  \<open>React.ReactNode\<close>: the values a component accepts as displayable content and the
  elements it returns. \<open>Div c ks\<close> is the \<open>div\<close> element with \<open>className\<close> \<open>c\<close> and
  children \<open>ks\<close>, \<open>Fragment\<close> an array of nodes (what \<open>labels.map\<close> yields), and
  \<open>NavTab key to label icon isBeta isLoading rightContent\<close> the element of the
  imported component \<open>NavTab\<close> with that key and those props, kept as data: its own
  rendering is not part of
  \<open>Container\<close>. An optional boolean prop that is absent is \<open>None\<close>, an optional node
  that is absent is \<open>Undefined\<close>.
\<close>

datatype node =
    Undefined
  | Null
  | Boolean bool
  | Number jsnumber
  | Str string
  | Fragment "node list"
  | Div string "node list"
  | NavTab string string node node "bool option" "bool option" node

text \<open>One entry of \<open>labels\<close>. The field \<open>label\<close> of the source is \<open>tab_label\<close> here,
  since the props of the component have a field \<open>label\<close> of their own.\<close>

record tab_descriptor =
  tab_label :: node
  to :: string
  icon :: node
  isBeta :: "bool option"
  isLoading :: "bool option"
  rightContent :: node

text \<open>\<open>ContainerProps\<close>: \<open>labels\<close> absent is \<open>None\<close>, \<open>label\<close> absent is
  \<open>Undefined\<close>, \<open>className\<close> absent is \<open>None\<close>. The props object a caller passes
  may hold more than the four fields the component destructures: that is the
  extension of the record.\<close>

record ContainerProps =
  label :: node
  labels :: "tab_descriptor list option"
  children :: node
  className :: "string option"

subsection \<open>JavaScript truthiness and \<open>&&\<close>\<close>

fun truthy :: "node \<Rightarrow> bool" where
  "truthy Undefined = False"
| "truthy Null = False"
| "truthy (Boolean b) = b"
| "truthy (Number NaN) = False"
| "truthy (Number (Finite n)) = (n \<noteq> 0)"
| "truthy (Str s) = (s \<noteq> [])"
| "truthy (Fragment ns) = True"
| "truthy (Div c ks) = True"
| "truthy (NavTab k t l i b g r) = True"

text \<open>\<open>a && b\<close> is \<open>a\<close> when \<open>a\<close> is falsy and \<open>b\<close> otherwise.\<close>

definition js_and :: "node \<Rightarrow> node \<Rightarrow> node" where
  "js_and a b = (if truthy a then b else a)"

subsection \<open>Class names\<close>

text \<open>
  Modelled from the spec: \<open>clsx\<close> is the external class-name merging utility, not part
  of the sources; the spec says that it combines the base classes with the optional
  override, the override augmenting them. Here it is what the package does on
  arguments that are strings or \<open>undefined\<close>: the truthy arguments, in order, joined
  by single spaces.
\<close>

fun clsx :: "string option list \<Rightarrow> string" where
  "clsx [] = []"
| "clsx (None # as) = clsx as"
| "clsx (Some s # as) =
     (if s = [] then clsx as
      else if clsx as = [] then s
      else s @ '' '' @ clsx as)"

definition base_class :: string where
  "base_class = ''bg-base-secondary border border-neutral-600 rounded-xl flex flex-col h-full''"

definition tabs_header_class :: string where
  "tabs_header_class = ''flex text-xs h-[36px]''"

definition label_header_class :: string where
  "label_header_class = ''px-2 h-[36px] border-b border-neutral-600 text-xs flex items-center''"

definition content_class :: string where
  "content_class = ''overflow-hidden flex-grow rounded-b-xl''"

subsection \<open>The component\<close>

text \<open>The arrow function passed to \<open>labels.map\<close>: one \<open>NavTab\<close> element per
  descriptor, keyed by \<open>to\<close>.\<close>

definition nav_tab :: "tab_descriptor \<Rightarrow> node" where
  "nav_tab d =
     NavTab (to d) (to d) (tab_label d) (icon d) (isBeta d) (isLoading d) (rightContent d)"

text \<open>
  The three children of the root are the three expressions of the source, in order:
  \<^verbatim>\<open>labels && (<div ..>)\<close>, which is \<open>undefined\<close> when \<open>labels\<close> is absent (an
  array, empty or not, is truthy); \<^verbatim>\<open>!labels && label && (<div ..>)\<close>; and the
  content region.
\<close>

definition Container :: "'a ContainerProps_scheme \<Rightarrow> node" where
  "Container p =
     Div (clsx [Some base_class, className p])
       [ (case labels p of
            None \<Rightarrow> Undefined
          | Some ls \<Rightarrow> Div tabs_header_class [Fragment (map nav_tab ls)]),
         js_and (js_and (Boolean (labels p = None)) (label p))
           (Div label_header_class [label p]),
         Div content_class [children p] ]"

text \<open>
  The one place where evaluating the body can throw is the method call
  \<open>labels.map\<close>: reading a property of \<open>undefined\<close> is a \<open>TypeError\<close>. On an array
  the call yields the values of the function on the entries, in order.
\<close>

datatype js_error = TypeError

definition labels_map ::
  "tab_descriptor list option \<Rightarrow> (tab_descriptor \<Rightarrow> node) \<Rightarrow> js_error + node list" where
  "labels_map ls f = (case ls of None \<Rightarrow> Inl TypeError | Some ds \<Rightarrow> Inr (map f ds))"

text \<open>
  The evaluation of the body with that failure written out. \<^verbatim>\<open>labels && (..)\<close>
  evaluates its right operand, and with it \<open>labels.map\<close>, only when \<open>labels\<close> is
  truthy; an exception thrown there ends the render.
\<close>

definition render_Container :: "'a ContainerProps_scheme \<Rightarrow> js_error + node" where
  "render_Container p =
     (case (if labels p = None then Inr Undefined
            else (case labels_map (labels p) nav_tab of
                    Inl e \<Rightarrow> Inl e
                  | Inr ts \<Rightarrow> Inr (Div tabs_header_class [Fragment ts]))) of
        Inl e \<Rightarrow> Inl e
      | Inr strip \<Rightarrow>
          Inr (Div (clsx [Some base_class, className p])
                 [ strip,
                   js_and (js_and (Boolean (labels p = None)) (label p))
                     (Div label_header_class [label p]),
                   Div content_class [children p] ]))"

subsection \<open>Reading the rendered tree\<close>

text \<open>The class string and the children of the root element.\<close>

fun root_class :: "node \<Rightarrow> string" where
  "root_class (Div c ks) = c"
| "root_class n = []"

fun root_children :: "node \<Rightarrow> node list" where
  "root_children (Div c ks) = ks"
| "root_children n = []"

text \<open>
  The two header regions and the content region are told apart by the class string
  the source gives each of them. Only the children of the root are looked at:
  \<open>children\<close> sits inside the content region and cannot be taken for a header.
\<close>

fun is_tabs_header :: "node \<Rightarrow> bool" where
  "is_tabs_header (Div c ks) = (c = tabs_header_class)"
| "is_tabs_header n = False"

fun is_label_header :: "node \<Rightarrow> bool" where
  "is_label_header (Div c ks) = (c = label_header_class)"
| "is_label_header n = False"

text \<open>
  What is displayed of the children of the root: \<open>undefined\<close>, \<open>null\<close>, the booleans
  and the empty string display nothing; numbers, other strings and elements are
  displayed, and an array is counted as displayed.
\<close>

fun displays_nothing :: "node \<Rightarrow> bool" where
  "displays_nothing Undefined = True"
| "displays_nothing Null = True"
| "displays_nothing (Boolean b) = True"
| "displays_nothing (Str s) = (s = [])"
| "displays_nothing n = False"

definition rendered_children :: "node \<Rightarrow> node list" where
  "rendered_children out = filter (\<lambda>n. \<not> displays_nothing n) (root_children out)"

definition has_tabs_header :: "node \<Rightarrow> bool" where
  "has_tabs_header out = (filter is_tabs_header (root_children out) \<noteq> [])"

definition has_label_header :: "node \<Rightarrow> bool" where
  "has_label_header out = (filter is_label_header (root_children out) \<noteq> [])"

definition has_header :: "node \<Rightarrow> bool" where
  "has_header out = (has_tabs_header out \<or> has_label_header out)"

text \<open>The header regions of the output, and what they contain.\<close>

definition header_regions :: "node \<Rightarrow> node list" where
  "header_regions out =
     filter (\<lambda>n. is_tabs_header n \<or> is_label_header n) (root_children out)"

text \<open>The tab elements of the output: the entries of the array inside a tab strip.\<close>

fun tabs_of :: "node \<Rightarrow> node list" where
  "tabs_of (Div c [Fragment ts]) = (if c = tabs_header_class then ts else [])"
| "tabs_of n = []"

definition tab_elements :: "node \<Rightarrow> node list" where
  "tab_elements out = concat (map tabs_of (root_children out))"

text \<open>The key and the props of a tab element.\<close>

fun tab_key :: "node \<Rightarrow> string option" where
  "tab_key (NavTab k t l i b g r) = Some k"
| "tab_key n = None"

fun tab_props :: "node \<Rightarrow> tab_descriptor option" where
  "tab_props (NavTab k t l i b g r) =
     Some \<lparr>tab_label = l, to = t, icon = i, isBeta = b, isLoading = g, rightContent = r\<rparr>"
| "tab_props n = None"

text \<open>The header mode that an output shows.\<close>

datatype header_mode = ModeNone | ModeLabel | ModeTabs

definition header_mode_of :: "node \<Rightarrow> header_mode" where
  "header_mode_of out =
     (if has_tabs_header out then ModeTabs
      else if has_label_header out then ModeLabel
      else ModeNone)"

text \<open>
  The header as the specification words it. There is a header region if and only if
  \<open>labels\<close> is a non-empty sequence, or \<open>label\<close> is supplied while \<open>labels\<close> is absent
  or empty. The header mode is tabs if \<open>labels\<close> is present and non-empty, else label
  if \<open>label\<close> is supplied, else none. A \<open>label\<close> is supplied when the caller passes
  one, that is, when it is not \<open>undefined\<close>.
\<close>

definition supplied :: "node \<Rightarrow> bool" where
  "supplied n = (n \<noteq> Undefined)"

definition spec_has_header :: "'a ContainerProps_scheme \<Rightarrow> bool" where
  "spec_has_header p =
     (case labels p of
        Some (d # ds) \<Rightarrow> True
      | _ \<Rightarrow> supplied (label p))"

definition spec_header_mode :: "'a ContainerProps_scheme \<Rightarrow> header_mode" where
  "spec_header_mode p =
     (case labels p of
        Some (d # ds) \<Rightarrow> ModeTabs
      | _ \<Rightarrow> if supplied (label p) then ModeLabel else ModeNone)"

text \<open>
  The class set of an element: the tokens of its class string, split at the ASCII
  whitespace characters (space, tab, line feed, form feed, carriage return).
\<close>

definition is_space :: "char \<Rightarrow> bool" where
  "is_space c =
     (c = CHR 0x20 \<or> c = CHR 0x09 \<or> c = CHR 0x0A \<or> c = CHR 0x0C \<or> c = CHR 0x0D)"

fun tokens :: "string \<Rightarrow> string \<Rightarrow> string list" where
  "tokens w [] = (if w = [] then [] else [rev w])"
| "tokens w (c # cs) =
     (if is_space c then (if w = [] then tokens [] cs else rev w # tokens [] cs)
      else tokens (c # w) cs)"

definition class_names :: "string \<Rightarrow> string list" where
  "class_names s = tokens [] s"

section \<open>The script eloo/scripts/env.sh\<close>

text \<open>
  The script has two commands:
  \<^verbatim>\<open>export LOG_LEVEL=ERROR\<close> and
  \<^verbatim>\<open>export ANTHROPIC_API_KEY="$(grep ANTHROPIC_API_KEY eloo/.env | cut -d '=' -f2-)"\<close>.
  The state is the exported environment, a map from names to values; the input is the
  content of \<open>eloo/.env\<close>, or \<open>None\<close> when the file cannot be read (\<open>grep\<close> then
  prints nothing on its standard output). \<open>grep\<close> and \<open>cut\<close> are the tools of the
  system the script runs on, not part of the sources.
\<close>

definition LF :: char where
  "LF = CHR 0x0A"

text \<open>The lines of a text, as \<open>grep\<close> and \<open>cut\<close> read them: each ends at a line feed,
  and a last line without one counts.\<close>

fun text_lines :: "string \<Rightarrow> string list" where
  "text_lines [] = []"
| "text_lines (c # cs) =
     (if c = LF then [] # text_lines cs
      else (case text_lines cs of [] \<Rightarrow> [[c]] | l # ls \<Rightarrow> (c # l) # ls))"

fun starts_with :: "string \<Rightarrow> string \<Rightarrow> bool" where
  "starts_with [] s = True"
| "starts_with (a # as) [] = False"
| "starts_with (a # as) (c # cs) = (a = c \<and> starts_with as cs)"

fun contains :: "string \<Rightarrow> string \<Rightarrow> bool" where
  "contains pat [] = (pat = [])"
| "contains pat (c # cs) = (starts_with pat (c # cs) \<or> contains pat cs)"

text \<open>
  A file is plain text when every byte is an ASCII character other than NUL. Such a
  file is text for \<open>grep\<close> in every locale.
\<close>

definition is_text :: "string \<Rightarrow> bool" where
  "is_text s = list_all (\<lambda>c. c \<noteq> CHR 0x00 \<and> \<not> digit7 c) s"

text \<open>
  \<open>grep PATTERN FILE\<close> for a pattern without special characters: the lines of its
  standard output. On plain text these are the lines that contain the pattern. On
  any other content (a NUL byte, or bytes outside ASCII) \<open>grep\<close> may take the file or
  some of its lines for binary data and suppress them, depending on the locale and on
  the tool itself; what it prints then is the parameter \<open>binary_output\<close>.
\<close>

definition grep :: "(string \<Rightarrow> string \<Rightarrow> string list) \<Rightarrow> string \<Rightarrow> string \<Rightarrow> string list" where
  "grep binary_output pat content =
     (if is_text content then filter (contains pat) (text_lines content)
      else binary_output pat content)"

text \<open>\<^verbatim>\<open>cut -d '=' -f2-\<close> on one line: everything after the first \<open>=\<close>; a line without
  the delimiter is printed whole.\<close>

definition cut_f2 :: "string \<Rightarrow> string" where
  "cut_f2 l =
     (if CHR ''='' \<in> set l then tl (dropWhile (\<lambda>c. c \<noteq> CHR ''='') l) else l)"

text \<open>Command substitution: the output of the pipeline, each line ended by a line
  feed, with the trailing line feeds removed.\<close>

definition command_substitution :: "string list \<Rightarrow> string" where
  "command_substitution ls =
     rev (dropWhile (\<lambda>c. c = LF) (rev (concat (map (\<lambda>l. l @ [LF]) ls))))"

definition dotenv_value ::
  "(string \<Rightarrow> string \<Rightarrow> string list) \<Rightarrow> string \<Rightarrow> string option \<Rightarrow> string" where
  "dotenv_value binary_output name dotenv =
     (case dotenv of
        None \<Rightarrow> []
      | Some content \<Rightarrow> command_substitution (map cut_f2 (grep binary_output name content)))"

definition env_sh ::
  "(string \<Rightarrow> string \<Rightarrow> string list) \<Rightarrow> string option \<Rightarrow> (string \<rightharpoonup> string)
     \<Rightarrow> (string \<rightharpoonup> string)" where
  "env_sh binary_output dotenv env =
     (env(''LOG_LEVEL'' \<mapsto> ''ERROR''))
       (''ANTHROPIC_API_KEY'' \<mapsto> dotenv_value binary_output ''ANTHROPIC_API_KEY'' dotenv)"

section \<open>Properties of \<open>Container\<close>\<close>

subsection \<open>The children of the root\<close>

lemma class_distinct:
  "tabs_header_class \<noteq> label_header_class"
  "content_class \<noteq> tabs_header_class"
  "content_class \<noteq> label_header_class"
  "label_header_class \<noteq> tabs_header_class"
  by (simp_all add: tabs_header_class_def label_header_class_def content_class_def)

lemma tabs_of_other:
  "c \<noteq> tabs_header_class \<Longrightarrow> tabs_of (Div c ks) = []"
  by (cases "Div c ks" rule: tabs_of.cases) auto

lemma falsy_not_header:
  "\<not> truthy n \<Longrightarrow> \<not> is_tabs_header n \<and> \<not> is_label_header n \<and> tabs_of n = []"
  by (cases n) simp_all

lemma js_and_label:
  "js_and (js_and (Boolean b) l) d = (if b \<and> truthy l then d else if b then l else Boolean False)"
  by (simp add: js_and_def)

lemma root_children_Container:
  "root_children (Container p) =
     [ (case labels p of None \<Rightarrow> Undefined
        | Some ls \<Rightarrow> Div tabs_header_class [Fragment (map nav_tab ls)]),
       (if labels p = None \<and> truthy (label p) then Div label_header_class [label p]
        else if labels p = None then label p else Boolean False),
       Div content_class [children p] ]"
  by (simp add: Container_def js_and_label)

lemma has_tabs_header_Container:
  "has_tabs_header (Container p) = (labels p \<noteq> None)"
  using falsy_not_header [of "label p"]
  by (auto simp: has_tabs_header_def root_children_Container class_distinct split: option.splits)

lemma has_label_header_Container:
  "has_label_header (Container p) = (labels p = None \<and> truthy (label p))"
  using falsy_not_header [of "label p"]
  by (auto simp: has_label_header_def root_children_Container class_distinct split: option.splits)

lemma header_regions_Container:
  "header_regions (Container p) =
     (case labels p of
        Some ls \<Rightarrow> [Div tabs_header_class [Fragment (map nav_tab ls)]]
      | None \<Rightarrow> if truthy (label p) then [Div label_header_class [label p]] else [])"
  using falsy_not_header [of "label p"]
  by (auto simp: header_regions_def root_children_Container class_distinct split: option.splits)

lemma tab_elements_Container:
  "tab_elements (Container p) = (case labels p of Some ls \<Rightarrow> map nav_tab ls | None \<Rightarrow> [])"
  using falsy_not_header [of "label p"]
  by (auto simp: tab_elements_def root_children_Container class_distinct tabs_of_other
      split: option.splits)

lemma rendered_children_Container:
  assumes "labels p = None" and "\<not> truthy (label p)" and "\<forall>j. label p \<noteq> Number j"
  shows "rendered_children (Container p) = [Div content_class [children p]]"
proof -
  have "displays_nothing (label p)"
    using assms(2,3) by (cases "label p") auto
  then show ?thesis
    using assms(1,2) by (simp add: rendered_children_def root_children_Container)
qed

lemma Container_label_irrelevant:
  "labels p = Some ls \<Longrightarrow> Container (p\<lparr>label := l\<rparr>) = Container p"
  by (simp add: Container_def js_and_def)

subsection \<open>Presence of the header region\<close>

text \<open>
  Claim C1, as amended. The output has a header region if and only if \<open>labels\<close> is
  present (an empty sequence included) or \<open>label\<close> is truthy. In every other case no
  header region is rendered and, when \<open>label\<close> is not a number, the content region
  is the only child of the root that is displayed.
\<close>

theorem header_iff_labels_present_or_label_truthy:
  "(has_header (Container p) \<longleftrightarrow> labels p \<noteq> None \<or> truthy (label p)) \<and>
   (\<not> has_header (Container p) \<and> (\<forall>j. label p \<noteq> Number j) \<longrightarrow>
      header_regions (Container p) = [] \<and>
      rendered_children (Container p) = [Div content_class [children p]])"
proof -
  have mode: "has_header (Container p) \<longleftrightarrow> labels p \<noteq> None \<or> truthy (label p)"
    by (auto simp: has_header_def has_tabs_header_Container has_label_header_Container)
  have "header_regions (Container p) = []" if "\<not> has_header (Container p)"
    using that unfolding mode by (auto simp: header_regions_Container)
  moreover have "rendered_children (Container p) = [Div content_class [children p]]"
    if "\<not> has_header (Container p)" and "\<forall>j. label p \<noteq> Number j"
    using that unfolding mode by (simp add: rendered_children_Container)
  ultimately show ?thesis
    using mode by blast
qed

text \<open>Two instances: neither \<open>label\<close> nor \<open>labels\<close>, and an empty \<open>label\<close>.\<close>

theorem header_iff_labels_present_or_label_truthy_witness:
  "\<not> has_header (Container \<lparr>label = Undefined, labels = None, children = Str ''body'',
       className = None\<rparr>) \<and>
   rendered_children (Container \<lparr>label = Undefined, labels = None,
       children = Str ''body'', className = None\<rparr>) = [Div content_class [Str ''body'']] \<and>
   \<not> has_header (Container \<lparr>label = Str '''', labels = None, children = Str ''body'',
       className = None\<rparr>) \<and>
   rendered_children (Container \<lparr>label = Str '''', labels = None,
       children = Str ''body'', className = None\<rparr>) = [Div content_class [Str ''body'']]"
  using header_iff_labels_present_or_label_truthy
    [of "\<lparr>label = Undefined, labels = None, children = Str ''body'', className = None\<rparr>"]
    header_iff_labels_present_or_label_truthy
    [of "\<lparr>label = Str '''', labels = None, children = Str ''body'', className = None\<rparr>"]
  by simp

text \<open>
  Claim C1 as it is stated fails when \<open>labels\<close> is the empty sequence and there is no
  \<open>label\<close>: the empty array is truthy, so the tab strip is rendered, with no tab in
  it.
\<close>

theorem empty_labels_header_counterexample:
  "has_header (Container \<lparr>label = Undefined, labels = Some [], children = Str ''body'',
       className = None\<rparr>) \<and>
   \<not> spec_has_header \<lparr>label = Undefined, labels = Some [], children = Str ''body'',
       className = None\<rparr>"
  by (simp add: has_header_def has_tabs_header_Container spec_has_header_def supplied_def)

subsection \<open>The header mode\<close>

text \<open>
  Claim C2, as amended. The header mode is tabs if \<open>labels\<close> is present, empty or
  not; otherwise label if \<open>label\<close> is truthy; otherwise none. The header region is
  then the tab strip over \<open>labels\<close>, the static \<open>label\<close>, or missing. Whenever
  \<open>labels\<close> is present, an empty sequence included, the output is the same for every
  \<open>label\<close>: the static label content is not rendered.
\<close>

theorem header_mode_Container:
  "header_mode_of (Container p) =
     (case labels p of
        Some ls \<Rightarrow> ModeTabs
      | None \<Rightarrow> if truthy (label p) then ModeLabel else ModeNone) \<and>
   header_regions (Container p) =
     (case labels p of
        Some ls \<Rightarrow> [Div tabs_header_class [Fragment (map nav_tab ls)]]
      | None \<Rightarrow> if truthy (label p) then [Div label_header_class [label p]] else []) \<and>
   (\<forall>ls l. labels p = Some ls \<longrightarrow> Container (p\<lparr>label := l\<rparr>) = Container p)"
proof -
  have "header_mode_of (Container p) =
     (case labels p of
        Some ls \<Rightarrow> ModeTabs
      | None \<Rightarrow> if truthy (label p) then ModeLabel else ModeNone)"
    by (simp add: header_mode_of_def has_tabs_header_Container has_label_header_Container
        split: option.splits)
  moreover have "\<forall>ls l. labels p = Some ls \<longrightarrow> Container (p\<lparr>label := l\<rparr>) = Container p"
    by (simp add: Container_label_irrelevant)
  moreover note header_regions_Container [of p]
  ultimately show ?thesis
    by blast
qed

text \<open>An instance: with \<open>labels\<close> empty and a \<open>label\<close>, the header is an empty tab
  strip, and another \<open>label\<close> gives the same output.\<close>

theorem header_mode_Container_witness:
  "header_mode_of (Container \<lparr>label = Str ''Settings'', labels = Some [],
       children = Str ''body'', className = None\<rparr>) = ModeTabs \<and>
   header_regions (Container \<lparr>label = Str ''Settings'', labels = Some [],
       children = Str ''body'', className = None\<rparr>) = [Div tabs_header_class [Fragment []]] \<and>
   Container \<lparr>label = Str ''Other'', labels = Some [], children = Str ''body'',
       className = None\<rparr>
   = Container \<lparr>label = Str ''Settings'', labels = Some [], children = Str ''body'',
       className = None\<rparr>"
proof -
  note t = header_mode_Container
      [of "\<lparr>label = Str ''Settings'', labels = Some [], children = Str ''body'',
            className = None\<rparr>"]
  have "Container (\<lparr>label = Str ''Settings'', labels = Some [], children = Str ''body'',
          className = None\<rparr>\<lparr>label := Str ''Other''\<rparr>)
        = Container \<lparr>label = Str ''Settings'', labels = Some [], children = Str ''body'',
          className = None\<rparr>"
    using t by simp
  then show ?thesis
    using t by simp
qed

text \<open>
  Claim C2 as it is stated fails at the same input: the specification's mode is
  label, the output shows the tab strip and no static label.
\<close>

theorem empty_labels_mode_counterexample:
  "spec_header_mode \<lparr>label = Str ''Settings'', labels = Some [], children = Str ''body'',
       className = None\<rparr> = ModeLabel \<and>
   header_mode_of (Container \<lparr>label = Str ''Settings'', labels = Some [],
       children = Str ''body'', className = None\<rparr>) = ModeTabs \<and>
   \<not> has_label_header (Container \<lparr>label = Str ''Settings'', labels = Some [],
       children = Str ''body'', className = None\<rparr>)"
  by (simp add: spec_header_mode_def supplied_def header_mode_of_def
      has_tabs_header_Container has_label_header_Container)

subsection \<open>Precedence of \<open>labels\<close> over \<open>label\<close>\<close>

text \<open>
  Claim C3. When \<open>labels\<close> is a non-empty sequence, the only header region is the
  tab strip over \<open>labels\<close>, there is no static-label header, and the output is the
  same whatever \<open>label\<close> is: nothing of \<open>label\<close> reaches the output.
\<close>

theorem labels_take_precedence:
  assumes "labels p = Some ls" and "ls \<noteq> []"
  shows "header_regions (Container p) = [Div tabs_header_class [Fragment (map nav_tab ls)]] \<and>
         \<not> has_label_header (Container p) \<and>
         Container (p\<lparr>label := l\<rparr>) = Container p"
proof -
  have "header_regions (Container p) = [Div tabs_header_class [Fragment (map nav_tab ls)]]"
    using assms by (simp add: header_regions_Container)
  moreover have "\<not> has_label_header (Container p)"
    using assms by (simp add: has_label_header_Container)
  moreover have "Container (p\<lparr>label := l\<rparr>) = Container p"
    using assms by (simp add: Container_def js_and_def)
  ultimately show ?thesis by simp
qed

text \<open>An instance: one tab, and two different labels.\<close>

theorem labels_take_precedence_witness:
  "labels \<lparr>label = Str ''Settings'',
      labels = Some [\<lparr>tab_label = Str ''Editor'', to = ''/editor'', icon = Undefined,
                     isBeta = None, isLoading = None, rightContent = Undefined\<rparr>],
      children = Str ''body'', className = None\<rparr>
     = Some [\<lparr>tab_label = Str ''Editor'', to = ''/editor'', icon = Undefined,
                     isBeta = None, isLoading = None, rightContent = Undefined\<rparr>] \<and>
   Container \<lparr>label = Str ''Other'',
      labels = Some [\<lparr>tab_label = Str ''Editor'', to = ''/editor'', icon = Undefined,
                     isBeta = None, isLoading = None, rightContent = Undefined\<rparr>],
      children = Str ''body'', className = None\<rparr>
   = Container \<lparr>label = Str ''Settings'',
      labels = Some [\<lparr>tab_label = Str ''Editor'', to = ''/editor'', icon = Undefined,
                     isBeta = None, isLoading = None, rightContent = Undefined\<rparr>],
      children = Str ''body'', className = None\<rparr>"
  using labels_take_precedence
    [of "\<lparr>label = Str ''Settings'',
      labels = Some [\<lparr>tab_label = Str ''Editor'', to = ''/editor'', icon = Undefined,
                     isBeta = None, isLoading = None, rightContent = Undefined\<rparr>],
      children = Str ''body'', className = None\<rparr>"
      "[\<lparr>tab_label = Str ''Editor'', to = ''/editor'', icon = Undefined,
                     isBeta = None, isLoading = None, rightContent = Undefined\<rparr>]"
      "Str ''Other''"]
  by simp

subsection \<open>The tab strip\<close>

lemma tab_props_nav_tab: "tab_props (nav_tab d) = Some d"
  by (simp add: nav_tab_def)

lemma tab_key_nav_tab: "tab_key (nav_tab d) = Some (to d)"
  by (simp add: nav_tab_def)

text \<open>
  Claim C4. For a non-empty \<open>labels\<close> of length \<open>N\<close> the output has exactly \<open>N\<close> tab
  elements, in the order of \<open>labels\<close>; each carries the fields of its descriptor
  unchanged (\<open>to\<close>, \<open>icon\<close>, \<open>isBeta\<close>, \<open>isLoading\<close>, \<open>rightContent\<close>, and the
  label), and the key of each is the \<open>to\<close> of its descriptor.
\<close>

theorem tabs_follow_labels:
  assumes "labels p = Some ls" and "ls \<noteq> []"
  shows "length (tab_elements (Container p)) = length ls \<and>
         map tab_props (tab_elements (Container p)) = map Some ls \<and>
         map tab_key (tab_elements (Container p)) = map (\<lambda>d. Some (to d)) ls"
  using assms
  by (simp add: tab_elements_Container tab_props_nav_tab tab_key_nav_tab comp_def)

text \<open>An instance: two tabs.\<close>

theorem tabs_follow_labels_witness:
  "map tab_props (tab_elements (Container \<lparr>label = Undefined,
      labels = Some [\<lparr>tab_label = Str ''Editor'', to = ''/editor'', icon = Str ''E'',
                      isBeta = Some True, isLoading = None, rightContent = Undefined\<rparr>,
                     \<lparr>tab_label = Str ''Terminal'', to = ''/terminal'', icon = Undefined,
                      isBeta = None, isLoading = Some False, rightContent = Str ''3''\<rparr>],
      children = Str ''body'', className = None\<rparr>))
   = [Some \<lparr>tab_label = Str ''Editor'', to = ''/editor'', icon = Str ''E'',
                      isBeta = Some True, isLoading = None, rightContent = Undefined\<rparr>,
      Some \<lparr>tab_label = Str ''Terminal'', to = ''/terminal'', icon = Undefined,
                      isBeta = None, isLoading = Some False, rightContent = Str ''3''\<rparr>] \<and>
   map tab_key (tab_elements (Container \<lparr>label = Undefined,
      labels = Some [\<lparr>tab_label = Str ''Editor'', to = ''/editor'', icon = Str ''E'',
                      isBeta = Some True, isLoading = None, rightContent = Undefined\<rparr>,
                     \<lparr>tab_label = Str ''Terminal'', to = ''/terminal'', icon = Undefined,
                      isBeta = None, isLoading = Some False, rightContent = Str ''3''\<rparr>],
      children = Str ''body'', className = None\<rparr>))
   = [Some ''/editor'', Some ''/terminal'']"
  using tabs_follow_labels
    [of "\<lparr>label = Undefined,
      labels = Some [\<lparr>tab_label = Str ''Editor'', to = ''/editor'', icon = Str ''E'',
                      isBeta = Some True, isLoading = None, rightContent = Undefined\<rparr>,
                     \<lparr>tab_label = Str ''Terminal'', to = ''/terminal'', icon = Undefined,
                      isBeta = None, isLoading = Some False, rightContent = Str ''3''\<rparr>],
      children = Str ''body'', className = None\<rparr>"
     "[\<lparr>tab_label = Str ''Editor'', to = ''/editor'', icon = Str ''E'',
                      isBeta = Some True, isLoading = None, rightContent = Undefined\<rparr>,
                     \<lparr>tab_label = Str ''Terminal'', to = ''/terminal'', icon = Undefined,
                      isBeta = None, isLoading = Some False, rightContent = Str ''3''\<rparr>]"]
  by simp

subsection \<open>The static label\<close>

text \<open>
  Claim C6, as amended. With \<open>labels\<close> absent and a truthy \<open>label\<close>, the only header
  region is the static one, it contains exactly \<open>label\<close>, and the output has no tab
  element.
\<close>

theorem static_label_header:
  assumes "labels p = None" and "truthy (label p)"
  shows "header_regions (Container p) = [Div label_header_class [label p]] \<and>
         tab_elements (Container p) = []"
  using assms by (simp add: header_regions_Container tab_elements_Container)

text \<open>An instance: the label \<open>Settings\<close>.\<close>

theorem static_label_header_witness:
  "truthy (Str ''Settings'') \<and>
   header_regions (Container \<lparr>label = Str ''Settings'', labels = None,
      children = Str ''body'', className = None\<rparr>)
     = [Div label_header_class [Str ''Settings'']] \<and>
   tab_elements (Container \<lparr>label = Str ''Settings'', labels = None,
      children = Str ''body'', className = None\<rparr>) = []"
  using static_label_header
    [of "\<lparr>label = Str ''Settings'', labels = None, children = Str ''body'',
          className = None\<rparr>"]
  by simp

text \<open>
  Claim C6 as it is stated fails for a \<open>label\<close> that is supplied and falsy: with the
  empty string the guard \<^verbatim>\<open>label && (..)\<close> yields the empty string itself, and no
  header region is rendered.
\<close>

theorem empty_label_counterexample:
  "supplied (Str '''') \<and>
   header_regions (Container \<lparr>label = Str '''', labels = None,
      children = Str ''body'', className = None\<rparr>) = []"
  by (simp add: supplied_def header_regions_Container)

text \<open>
  A falsy \<open>label\<close> is itself the value of the guard and so a child of the root.
  \<open>undefined\<close>, \<open>null\<close>, \<open>false\<close> and the empty string display nothing there; the
  number \<open>0\<close> is displayed as a child of the root, outside any header region.
\<close>

lemma zero_label_children:
  "root_children (Container \<lparr>label = Number (Finite 0), labels = None,
      children = Str ''body'', className = None\<rparr>)
   = [Undefined, Number (Finite 0), Div content_class [Str ''body'']] \<and>
   rendered_children (Container \<lparr>label = Number (Finite 0), labels = None,
      children = Str ''body'', className = None\<rparr>)
   = [Number (Finite 0), Div content_class [Str ''body'']]"
  by (simp add: rendered_children_def root_children_Container)

subsection \<open>No failure\<close>

lemma render_Container_ok: "render_Container p = Inr (Container p)"
  by (cases "labels p") (simp_all add: render_Container_def labels_map_def Container_def)

text \<open>
  Claim C8. Rendering has no error condition: the evaluation of the body never
  reaches the \<open>TypeError\<close> of \<open>labels.map\<close>, which the guard \<^verbatim>\<open>labels &&\<close> keeps
  away from an absent \<open>labels\<close>. Every configuration, with distinct destinations or
  not, renders to a tree, the root element with the content region as its last
  child and one tab element for each descriptor.
\<close>

theorem render_Container_never_fails:
  "(\<exists>c strip lbl. render_Container p = Inr (Div c [strip, lbl, Div content_class [children p]])) \<and>
   (\<forall>out. render_Container p = Inr out \<longrightarrow>
      tab_elements out = (case labels p of None \<Rightarrow> [] | Some ls \<Rightarrow> map nav_tab ls))"
proof -
  have "\<exists>c strip lbl. Container p = Div c [strip, lbl, Div content_class [children p]]"
    by (simp add: Container_def)
  then show ?thesis
    by (simp add: render_Container_ok tab_elements_Container)
qed

text \<open>An instance: two descriptors with the same destination render to two tab
  elements with the same key.\<close>

theorem render_Container_never_fails_witness:
  "\<not> distinct (map to [\<lparr>tab_label = Str ''A'', to = ''/same'', icon = Undefined,
                      isBeta = None, isLoading = None, rightContent = Undefined\<rparr>,
                     \<lparr>tab_label = Str ''B'', to = ''/same'', icon = Undefined,
                      isBeta = None, isLoading = None, rightContent = Undefined\<rparr>]) \<and>
   (\<exists>out. render_Container \<lparr>label = Undefined,
      labels = Some [\<lparr>tab_label = Str ''A'', to = ''/same'', icon = Undefined,
                      isBeta = None, isLoading = None, rightContent = Undefined\<rparr>,
                     \<lparr>tab_label = Str ''B'', to = ''/same'', icon = Undefined,
                      isBeta = None, isLoading = None, rightContent = Undefined\<rparr>],
      children = Str ''body'', className = None\<rparr> = Inr out \<and>
     tab_elements out
       = [NavTab ''/same'' ''/same'' (Str ''A'') Undefined None None Undefined,
          NavTab ''/same'' ''/same'' (Str ''B'') Undefined None None Undefined])"
  using render_Container_never_fails
    [of "\<lparr>label = Undefined,
      labels = Some [\<lparr>tab_label = Str ''A'', to = ''/same'', icon = Undefined,
                      isBeta = None, isLoading = None, rightContent = Undefined\<rparr>,
                     \<lparr>tab_label = Str ''B'', to = ''/same'', icon = Undefined,
                      isBeta = None, isLoading = None, rightContent = Undefined\<rparr>],
      children = Str ''body'', className = None\<rparr>"]
  by (auto simp: nav_tab_def)

subsection \<open>The two headers exclude each other\<close>

text \<open>
  Claim C10. No output has both the tab strip and the static-label header: there is
  at most one header region.
\<close>

theorem headers_mutually_exclusive:
  "\<not> (has_tabs_header (Container p) \<and> has_label_header (Container p)) \<and>
   length (header_regions (Container p)) \<le> 1"
  by (simp add: has_tabs_header_Container has_label_header_Container
      header_regions_Container split: option.splits)

text \<open>An instance: \<open>labels\<close> empty together with a \<open>label\<close>.\<close>

theorem headers_mutually_exclusive_witness:
  "\<not> has_label_header (Container \<lparr>label = Str ''Settings'', labels = Some [],
      children = Str ''body'', className = None\<rparr>) \<and>
   length (header_regions (Container \<lparr>label = Str ''Settings'', labels = Some [],
      children = Str ''body'', className = None\<rparr>)) \<le> 1"
  using headers_mutually_exclusive
    [of "\<lparr>label = Str ''Settings'', labels = Some [], children = Str ''body'',
          className = None\<rparr>"]
  by (simp add: has_tabs_header_Container)

subsection \<open>The class set of the root\<close>

lemma tokens_append_space:
  "is_space c \<Longrightarrow> tokens w (a @ c # b) = tokens w a @ tokens [] b"
  by (induction a arbitrary: w) simp_all

lemma class_names_join:
  "class_names (a @ '' '' @ b) = class_names a @ class_names b"
  by (simp add: class_names_def tokens_append_space is_space_def)

lemma class_names_base:
  "class_names base_class =
     [''bg-base-secondary'', ''border'', ''border-neutral-600'', ''rounded-xl'', ''flex'',
      ''flex-col'', ''h-full'']"
  by (simp add: class_names_def base_class_def is_space_def)

lemma root_class_Container:
  "root_class (Container p) =
     (case className p of
        None \<Rightarrow> base_class
      | Some cn \<Rightarrow> if cn = [] then base_class else base_class @ '' '' @ cn)"
  by (simp add: Container_def base_class_def split: option.splits)

text \<open>
  Claim C5. With a \<open>className\<close> from the caller, the class set of the root is the
  union of the base classes and the caller's classes; in particular it holds
  \<open>flex\<close>, \<open>flex-col\<close>, \<open>h-full\<close>, \<open>border\<close>, \<open>rounded-xl\<close> and
  \<open>bg-base-secondary\<close>.
\<close>

theorem className_augments_base:
  assumes "className p = Some cn"
  shows "set (class_names (root_class (Container p)))
           = set (class_names base_class) \<union> set (class_names cn) \<and>
         {''flex'', ''flex-col'', ''h-full'', ''border'', ''rounded-xl'', ''bg-base-secondary''}
           \<subseteq> set (class_names (root_class (Container p)))"
proof -
  have eq: "class_names (root_class (Container p)) = class_names base_class @ class_names cn"
  proof (cases "cn = []")
    case True
    then show ?thesis
      using assms by (simp add: root_class_Container) (simp add: class_names_def)
  next
    case False
    then show ?thesis
      using assms by (simp add: root_class_Container class_names_join del: append.simps)
  qed
  have "{''flex'', ''flex-col'', ''h-full'', ''border'', ''rounded-xl'', ''bg-base-secondary''}
          \<subseteq> set (class_names base_class)"
    by (simp add: class_names_base)
  then show ?thesis
    unfolding eq by auto
qed

text \<open>An instance: the override \<open>custom-x\<close>.\<close>

theorem className_augments_base_witness:
  "className \<lparr>label = Undefined, labels = None, children = Str ''body'',
      className = Some ''custom-x''\<rparr> = Some ''custom-x'' \<and>
   class_names ''custom-x'' = [''custom-x''] \<and>
   set (class_names (root_class (Container \<lparr>label = Undefined, labels = None,
      children = Str ''body'', className = Some ''custom-x''\<rparr>)))
   = set (class_names base_class) \<union> set (class_names ''custom-x'') \<and>
   {''flex'', ''flex-col'', ''h-full'', ''border'', ''rounded-xl'', ''bg-base-secondary''}
     \<subseteq> set (class_names (root_class (Container \<lparr>label = Undefined, labels = None,
      children = Str ''body'', className = Some ''custom-x''\<rparr>)))"
proof -
  have h: "className \<lparr>label = Undefined, labels = None, children = Str ''body'',
      className = Some ''custom-x''\<rparr> = Some ''custom-x''"
    by simp
  have cn: "class_names ''custom-x'' = [''custom-x'']"
    by (simp add: class_names_def is_space_def)
  show ?thesis
    using h cn className_augments_base [OF h] by blast
qed

section \<open>Properties of env.sh\<close>

subsection \<open>Lines\<close>

lemma text_lines_unterminated:
  "LF \<notin> set r \<Longrightarrow> text_lines r = (if r = [] then [] else [r])"
  by (induction r) auto

lemma text_lines_terminated:
  "LF \<notin> set l \<Longrightarrow> text_lines (l @ LF # s) = l # text_lines s"
  by (induction l) auto

lemma text_lines_file:
  assumes "\<forall>l\<in>set ls. LF \<notin> set l" and "LF \<notin> set r"
  shows "text_lines (concat (map (\<lambda>l. l @ [LF]) ls) @ r) = ls @ (if r = [] then [] else [r])"
  using assms
proof (induction ls)
  case Nil
  then show ?case by (simp add: text_lines_unterminated)
next
  case (Cons l ls)
  then show ?case by (simp add: text_lines_terminated)
qed

subsection \<open>Matching\<close>

lemma starts_with_iff: "starts_with pat s \<longleftrightarrow> (\<exists>b. s = pat @ b)"
  by (induction pat s rule: starts_with.induct) auto

lemma contains_iff: "contains pat s \<longleftrightarrow> (\<exists>a b. s = a @ pat @ b)"
proof (induction s)
  case Nil
  then show ?case by simp
next
  case (Cons c cs)
  show ?case
  proof
    assume "contains pat (c # cs)"
    then consider "starts_with pat (c # cs)" | "contains pat cs"
      by auto
    then show "\<exists>a b. c # cs = a @ pat @ b"
    proof cases
      case 1
      then obtain b where "c # cs = pat @ b"
        using starts_with_iff by blast
      then have "c # cs = [] @ pat @ b" by simp
      then show ?thesis by blast
    next
      case 2
      then obtain a b where "cs = a @ pat @ b"
        using Cons.IH by blast
      then have "c # cs = (c # a) @ pat @ b" by simp
      then show ?thesis by blast
    qed
  next
    assume "\<exists>a b. c # cs = a @ pat @ b"
    then obtain a b where ab: "c # cs = a @ pat @ b"
      by blast
    show "contains pat (c # cs)"
    proof (cases a)
      case Nil
      with ab have "starts_with pat (c # cs)"
        using starts_with_iff by auto
      then show ?thesis by simp
    next
      case (Cons x a')
      with ab have "cs = a' @ pat @ b" by simp
      then have "contains pat cs"
        using Cons.IH by blast
      then show ?thesis by simp
    qed
  qed
qed

lemma grep_text:
  assumes "is_text content"
  shows "grep bo pat content = filter (\<lambda>l. \<exists>a b. l = a @ pat @ b) (text_lines content)"
proof -
  have "contains pat = (\<lambda>l. \<exists>a b. l = a @ pat @ b)"
    by (rule ext) (rule contains_iff)
  then show ?thesis
    using assms by (simp add: grep_def)
qed

subsection \<open>Fields and command substitution\<close>

lemma cut_f2_no_delimiter: "CHR ''='' \<notin> set l \<Longrightarrow> cut_f2 l = l"
  by (simp add: cut_f2_def)

lemma cut_f2_after_first:
  assumes "CHR ''='' \<notin> set a"
  shows "cut_f2 (a @ CHR ''='' # b) = b"
proof -
  have "dropWhile (\<lambda>c. c \<noteq> CHR ''='') (a @ CHR ''='' # b) = CHR ''='' # b"
    using assms by (induction a) auto
  then show ?thesis
    by (simp add: cut_f2_def)
qed

lemma field_after_first:
  "CHR ''='' \<notin> set a \<Longrightarrow> l = a @ CHR ''='' # out \<Longrightarrow>
   (CHR ''='' \<notin> set l \<and> out = l) \<or> (\<exists>a. CHR ''='' \<notin> set a \<and> l = a @ CHR ''='' # out)"
  by blast

lemma map_cut_f2:
  assumes "list_all2 (\<lambda>l out. (CHR ''='' \<notin> set l \<and> out = l) \<or>
             (\<exists>a. CHR ''='' \<notin> set a \<and> l = a @ CHR ''='' # out)) ms outs"
  shows "map cut_f2 ms = outs"
  using assms
  by (induction rule: list_all2_induct) (auto simp: cut_f2_no_delimiter cut_f2_after_first)

lemma command_substitution_strip:
  assumes "concat (map (\<lambda>out. out @ [LF]) outs) = v @ replicate k LF"
    and "v = [] \<or> last v \<noteq> LF"
  shows "command_substitution outs = v"
proof -
  have "dropWhile (\<lambda>c. c = LF) (replicate k LF @ rev v) = dropWhile (\<lambda>c. c = LF) (rev v)"
    by (induction k) auto
  moreover have "dropWhile (\<lambda>c. c = LF) (rev v) = rev v"
    using assms(2) by (cases v rule: rev_cases) auto
  ultimately show ?thesis
    by (simp add: command_substitution_def assms(1))
qed

subsection \<open>Every file has its lines, fields and value\<close>

text \<open>
  Every content is a sequence of lines ended by a line feed and a rest without one;
  every line has its field; every output has its value without trailing line feeds.
  So the description of the extracted value below applies to every file.
\<close>

lemma lines_exist:
  "\<exists>ls r. s = concat (map (\<lambda>l. l @ [LF]) ls) @ r \<and> (\<forall>l\<in>set ls. LF \<notin> set l) \<and> LF \<notin> set r"
proof (induction s)
  case Nil
  have "[] = concat (map (\<lambda>l. l @ [LF]) []) @ [] \<and> (\<forall>l\<in>set ([]::string list). LF \<notin> set l) \<and>
      LF \<notin> set []"
    by simp
  then show ?case by blast
next
  case (Cons c s)
  then obtain ls r where s: "s = concat (map (\<lambda>l. l @ [LF]) ls) @ r"
    and ls: "\<forall>l\<in>set ls. LF \<notin> set l" and r: "LF \<notin> set r"
    by blast
  show ?case
  proof (cases "c = LF")
    case True
    have "c # s = concat (map (\<lambda>l. l @ [LF]) ([] # ls)) @ r \<and>
        (\<forall>l\<in>set ([] # ls). LF \<notin> set l) \<and> LF \<notin> set r"
      using True s ls r by simp
    then show ?thesis by blast
  next
    case False
    show ?thesis
    proof (cases ls)
      case Nil
      have "c # s = concat (map (\<lambda>l. l @ [LF]) []) @ (c # r) \<and>
          (\<forall>l\<in>set ([]::string list). LF \<notin> set l) \<and> LF \<notin> set (c # r)"
        using False Nil s r by simp
      then show ?thesis by blast
    next
      case (Cons l ls')
      have "c # s = concat (map (\<lambda>l. l @ [LF]) ((c # l) # ls')) @ r \<and>
          (\<forall>l\<in>set ((c # l) # ls'). LF \<notin> set l) \<and> LF \<notin> set r"
        using False Cons s ls r by simp
      then show ?thesis by blast
    qed
  qed
qed

lemma fields_exist:
  "\<exists>outs. list_all2 (\<lambda>l out. (CHR ''='' \<notin> set l \<and> out = l) \<or>
             (\<exists>a. CHR ''='' \<notin> set a \<and> l = a @ CHR ''='' # out)) ms outs"
proof (induction ms)
  case Nil
  then show ?case by simp
next
  case (Cons l ms)
  then obtain outs where outs: "list_all2 (\<lambda>l out. (CHR ''='' \<notin> set l \<and> out = l) \<or>
             (\<exists>a. CHR ''='' \<notin> set a \<and> l = a @ CHR ''='' # out)) ms outs"
    by blast
  have "\<exists>out. (CHR ''='' \<notin> set l \<and> out = l) \<or>
      (\<exists>a. CHR ''='' \<notin> set a \<and> l = a @ CHR ''='' # out)"
  proof (cases "CHR ''='' \<in> set l")
    case True
    then show ?thesis
      using split_list_first [of "CHR ''=''" l] by blast
  next
    case False
    then show ?thesis by blast
  qed
  then obtain out where "(CHR ''='' \<notin> set l \<and> out = l) \<or>
      (\<exists>a. CHR ''='' \<notin> set a \<and> l = a @ CHR ''='' # out)"
    by blast
  with outs have "list_all2 (\<lambda>l out. (CHR ''='' \<notin> set l \<and> out = l) \<or>
             (\<exists>a. CHR ''='' \<notin> set a \<and> l = a @ CHR ''='' # out)) (l # ms) (out # outs)"
    by simp
  then show ?case by blast
qed

lemma stripped_exists:
  "\<exists>v k. s = v @ replicate k LF \<and> (v = [] \<or> last v \<noteq> LF)"
proof (induction s rule: rev_induct)
  case Nil
  have "[] = [] @ replicate 0 LF" by simp
  then show ?case by blast
next
  case (snoc x s)
  then obtain v k where vk: "s = v @ replicate k LF" "v = [] \<or> last v \<noteq> LF"
    by blast
  show ?case
  proof (cases "x = LF")
    case True
    then have "s @ [x] = v @ replicate (Suc k) LF"
      using vk(1) by (simp add: replicate_append_same)
    with vk(2) show ?thesis by blast
  next
    case False
    then have "s @ [x] = (s @ [x]) @ replicate 0 LF \<and> last (s @ [x]) \<noteq> LF"
      by simp
    then show ?thesis by blast
  qed
qed

subsection \<open>The exported environment\<close>

lemma dotenv_value_text:
  assumes "is_text (concat (map (\<lambda>l. l @ [LF]) ls) @ r)"
    and "\<forall>l\<in>set ls. LF \<notin> set l" and "LF \<notin> set r"
    and "list_all2 (\<lambda>l out. (CHR ''='' \<notin> set l \<and> out = l) \<or>
             (\<exists>a. CHR ''='' \<notin> set a \<and> l = a @ CHR ''='' # out))
           (filter (\<lambda>l. \<exists>a b. l = a @ name @ b) (ls @ (if r = [] then [] else [r]))) outs"
    and "concat (map (\<lambda>out. out @ [LF]) outs) = v @ replicate k LF"
    and "v = [] \<or> last v \<noteq> LF"
  shows "dotenv_value bo name (Some (concat (map (\<lambda>l. l @ [LF]) ls) @ r)) = v"
proof -
  have "grep bo name (concat (map (\<lambda>l. l @ [LF]) ls) @ r)
          = filter (\<lambda>l. \<exists>a b. l = a @ name @ b) (ls @ (if r = [] then [] else [r]))"
    using assms(1,2,3) by (simp add: grep_text text_lines_file del: append.simps)
  then have "map cut_f2 (grep bo name (concat (map (\<lambda>l. l @ [LF]) ls) @ r)) = outs"
    using assms(4) by (simp only: map_cut_f2)
  then show ?thesis
    using assms(5,6) by (simp add: dotenv_value_def command_substitution_strip)
qed

text \<open>
  Claim C9, as amended. The script exports exactly two variables and leaves every
  other one as it was. \<open>LOG_LEVEL\<close> is the constant \<open>ERROR\<close>, whatever the file
  holds. Only \<open>ANTHROPIC_API_KEY\<close> is taken from the file. It is empty when the file
  cannot be read. For a file of plain text, made of the lines \<open>ls\<close> and perhaps a last
  line \<open>r\<close> without a line feed, take the lines that contain the name, of each the
  text after its first \<open>=\<close> (the whole line when it has none), each followed by a
  line feed: the value is that text without its trailing line feeds.
\<close>

theorem env_sh_exports:
  "dom (env_sh bo dotenv env) = dom env \<union> {''LOG_LEVEL'', ''ANTHROPIC_API_KEY''} \<and>
   (\<forall>x. x \<noteq> ''LOG_LEVEL'' \<and> x \<noteq> ''ANTHROPIC_API_KEY'' \<longrightarrow> env_sh bo dotenv env x = env x) \<and>
   env_sh bo dotenv env ''LOG_LEVEL'' = Some ''ERROR'' \<and>
   (dotenv = None \<longrightarrow> env_sh bo dotenv env ''ANTHROPIC_API_KEY'' = Some []) \<and>
   (\<forall>ls r outs v k.
      dotenv = Some (concat (map (\<lambda>l. l @ [LF]) ls) @ r) \<and>
      is_text (concat (map (\<lambda>l. l @ [LF]) ls) @ r) \<and>
      (\<forall>l\<in>set ls. LF \<notin> set l) \<and> LF \<notin> set r \<and>
      list_all2 (\<lambda>l out. (CHR ''='' \<notin> set l \<and> out = l) \<or>
                  (\<exists>a. CHR ''='' \<notin> set a \<and> l = a @ CHR ''='' # out))
        (filter (\<lambda>l. \<exists>a b. l = a @ ''ANTHROPIC_API_KEY'' @ b)
           (ls @ (if r = [] then [] else [r]))) outs \<and>
      concat (map (\<lambda>out. out @ [LF]) outs) = v @ replicate k LF \<and>
      (v = [] \<or> last v \<noteq> LF)
      \<longrightarrow> env_sh bo dotenv env ''ANTHROPIC_API_KEY'' = Some v)"
proof -
  have dom: "dom (env_sh bo dotenv env) = dom env \<union> {''LOG_LEVEL'', ''ANTHROPIC_API_KEY''}"
    by (auto simp: env_sh_def)
  have other: "\<forall>x. x \<noteq> ''LOG_LEVEL'' \<and> x \<noteq> ''ANTHROPIC_API_KEY'' \<longrightarrow>
      env_sh bo dotenv env x = env x"
    by (simp add: env_sh_def)
  have level: "env_sh bo dotenv env ''LOG_LEVEL'' = Some ''ERROR''"
    by (simp add: env_sh_def)
  have missing: "dotenv = None \<longrightarrow> env_sh bo dotenv env ''ANTHROPIC_API_KEY'' = Some []"
    by (simp add: env_sh_def dotenv_value_def)
  have key: "env_sh bo dotenv env ''ANTHROPIC_API_KEY''
      = Some (dotenv_value bo ''ANTHROPIC_API_KEY'' dotenv)"
    by (simp add: env_sh_def)
  have plain: "\<forall>ls r outs v k.
      dotenv = Some (concat (map (\<lambda>l. l @ [LF]) ls) @ r) \<and>
      is_text (concat (map (\<lambda>l. l @ [LF]) ls) @ r) \<and>
      (\<forall>l\<in>set ls. LF \<notin> set l) \<and> LF \<notin> set r \<and>
      list_all2 (\<lambda>l out. (CHR ''='' \<notin> set l \<and> out = l) \<or>
                  (\<exists>a. CHR ''='' \<notin> set a \<and> l = a @ CHR ''='' # out))
        (filter (\<lambda>l. \<exists>a b. l = a @ ''ANTHROPIC_API_KEY'' @ b)
           (ls @ (if r = [] then [] else [r]))) outs \<and>
      concat (map (\<lambda>out. out @ [LF]) outs) = v @ replicate k LF \<and>
      (v = [] \<or> last v \<noteq> LF)
      \<longrightarrow> env_sh bo dotenv env ''ANTHROPIC_API_KEY'' = Some v"
    unfolding key using dotenv_value_text [where name = "''ANTHROPIC_API_KEY''" and bo = bo]
    by blast
  from dom other level missing plain show ?thesis
    by blast
qed

text \<open>An instance: a file that sets both names; the value holds a second \<open>=\<close>.\<close>

theorem env_sh_exports_witness:
  "env_sh (\<lambda>pat content. [])
     (Some (''LOG_LEVEL=DEBUG'' @ [LF] @ ''ANTHROPIC_API_KEY=sk-ant-x=y'' @ [LF]))
     [''HOME'' \<mapsto> ''/root''] ''HOME'' = Some ''/root'' \<and>
   env_sh (\<lambda>pat content. [])
     (Some (''LOG_LEVEL=DEBUG'' @ [LF] @ ''ANTHROPIC_API_KEY=sk-ant-x=y'' @ [LF]))
     [''HOME'' \<mapsto> ''/root''] ''LOG_LEVEL'' = Some ''ERROR'' \<and>
   env_sh (\<lambda>pat content. [])
     (Some (''LOG_LEVEL=DEBUG'' @ [LF] @ ''ANTHROPIC_API_KEY=sk-ant-x=y'' @ [LF]))
     [''HOME'' \<mapsto> ''/root''] ''ANTHROPIC_API_KEY'' = Some ''sk-ant-x=y''"
proof -
  let ?ls = "[''LOG_LEVEL=DEBUG'', ''ANTHROPIC_API_KEY=sk-ant-x=y'']"
  let ?file = "concat (map (\<lambda>l. l @ [LF]) ?ls) @ []"
  let ?env = "[''HOME'' \<mapsto> ''/root'']"
  note t = env_sh_exports [of "\<lambda>pat content. []" "Some ?file" ?env]
  note other = t [THEN conjunct2, THEN conjunct1, rule_format, of "''HOME''"]
  note level = t [THEN conjunct2, THEN conjunct2, THEN conjunct1]
  note value_rule = t [THEN conjunct2, THEN conjunct2, THEN conjunct2, THEN conjunct2,
      rule_format, of ?ls "[]" "[''sk-ant-x=y'']" "''sk-ant-x=y''" 1]
  have content: "''LOG_LEVEL=DEBUG'' @ [LF] @ ''ANTHROPIC_API_KEY=sk-ant-x=y'' @ [LF] = ?file"
    by simp
  have plain: "is_text ?file"
    by (simp add: is_text_def LF_def)
  have nolf: "\<forall>l\<in>set ?ls. LF \<notin> set l"
    by (simp add: LF_def)
  have "\<not> contains ''ANTHROPIC_API_KEY'' ''LOG_LEVEL=DEBUG''"
    and "contains ''ANTHROPIC_API_KEY'' ''ANTHROPIC_API_KEY=sk-ant-x=y''"
    by simp_all
  then have matching: "filter (\<lambda>l. \<exists>a b. l = a @ ''ANTHROPIC_API_KEY'' @ b)
      (?ls @ (if [] = ([]::string) then [] else [[]])) = [''ANTHROPIC_API_KEY=sk-ant-x=y'']"
    by (simp add: contains_iff)
  have "(CHR ''='' \<notin> set ''ANTHROPIC_API_KEY=sk-ant-x=y'' \<and>
        ''sk-ant-x=y'' = ''ANTHROPIC_API_KEY=sk-ant-x=y'') \<or>
      (\<exists>a. CHR ''='' \<notin> set a \<and>
        ''ANTHROPIC_API_KEY=sk-ant-x=y'' = a @ CHR ''='' # ''sk-ant-x=y'')"
    by (rule field_after_first [of "''ANTHROPIC_API_KEY''"]) simp_all
  then have fields: "list_all2 (\<lambda>l out. (CHR ''='' \<notin> set l \<and> out = l) \<or>
                  (\<exists>a. CHR ''='' \<notin> set a \<and> l = a @ CHR ''='' # out))
        (filter (\<lambda>l. \<exists>a b. l = a @ ''ANTHROPIC_API_KEY'' @ b)
           (?ls @ (if [] = ([]::string) then [] else [[]]))) [''sk-ant-x=y'']"
    unfolding matching by simp
  have joined: "concat (map (\<lambda>out. out @ [LF]) [''sk-ant-x=y''])
      = ''sk-ant-x=y'' @ replicate 1 LF"
    by simp
  have stripped: "''sk-ant-x=y'' = [] \<or> last ''sk-ant-x=y'' \<noteq> LF"
    by (simp add: LF_def)
  have key: "env_sh (\<lambda>pat content. []) (Some ?file) ?env ''ANTHROPIC_API_KEY''
      = Some ''sk-ant-x=y''"
  proof (rule value_rule, intro conjI)
    show "Some ?file = Some ?file" by (rule refl)
    show "is_text ?file" by (rule plain)
    show "\<forall>l\<in>set ?ls. LF \<notin> set l" by (rule nolf)
    show "LF \<notin> set []" by simp
  qed (rule fields joined stripped)+
  have "''HOME'' \<noteq> ''LOG_LEVEL'' \<and> ''HOME'' \<noteq> ''ANTHROPIC_API_KEY''"
    by simp
  then have "env_sh (\<lambda>pat content. []) (Some ?file) ?env ''HOME'' = ?env ''HOME''"
    by (rule other)
  then have home: "env_sh (\<lambda>pat content. []) (Some ?file) ?env ''HOME'' = Some ''/root''"
    by simp
  show ?thesis
    unfolding content by (intro conjI home level key)
qed

text \<open>
  Claim C9 as it is stated fails for \<open>LOG_LEVEL\<close>: the file says \<open>DEBUG\<close>, the
  exported value is \<open>ERROR\<close>, which occurs nowhere in the file.
\<close>

theorem log_level_counterexample:
  "env_sh (\<lambda>pat content. []) (Some (''LOG_LEVEL=DEBUG'' @ [LF])) Map.empty ''LOG_LEVEL''
     = Some ''ERROR'' \<and>
   dotenv_value (\<lambda>pat content. []) ''LOG_LEVEL'' (Some (''LOG_LEVEL=DEBUG'' @ [LF])) = ''DEBUG'' \<and>
   \<not> contains ''ERROR'' (''LOG_LEVEL=DEBUG'' @ [LF])"
  by (simp add: env_sh_def dotenv_value_def grep_def is_text_def cut_f2_def
      command_substitution_def LF_def)

end
